theory Spec2Isabelle
  imports Complex_Main "HOL-Library.Sublist"
begin

section \<open>Values of the host model\<close>

text \<open>
  The script \<^verbatim>\<open>LoadBusTimetable.py\<close> runs inside a traffic model. What it
  reads from that model is taken as data here: a network section is known by its
  id, an object found by external id has a name and sits on a section, and the
  shortest-path manager is a function that either raises (\<open>None\<close>) or returns a
  list of sections.
\<close>

datatype GKSection = Section (getId: nat)

record GKBusStop =
  getName :: string
  getSection :: GKSection

text \<open>\<^verbatim>\<open>model.getCatalog().findObjectByExternalId\<close>: \<open>None\<close> is Python's \<^verbatim>\<open>None\<close>.\<close>

type_synonym catalog = "string \<Rightarrow> GKBusStop option"

text \<open>\<^verbatim>\<open>sp_manager.getPath\<close>: \<open>None\<close> when the call raises.\<close>

type_synonym sp_manager = "GKSection \<Rightarrow> GKSection \<Rightarrow> GKSection list option"

text \<open>A stop of a trip is the tuple \<^verbatim>\<open>(stop_eid, time)\<close>.\<close>

type_synonym stop = "string \<times> string"

datatype py_error = AttributeError string | IndexError string | IOError string


text \<open>Characters that a string literal cannot hold.\<close>

definition apostrophe :: string where
  "apostrophe = [CHR 0x27]"

definition backslash :: string where
  "backslash = [CHR 0x5C]"

definition newline :: string where
  "newline = [CHR 0x0A]"

text \<open>What calling a method on \<^verbatim>\<open>None\<close> raises.\<close>

definition none_has_no :: "string \<Rightarrow> py_error" where
  "none_has_no attr =
     AttributeError (apostrophe @ ''NoneType'' @ apostrophe @ '' object has no attribute ''
       @ apostrophe @ attr @ apostrophe)"

definition list_index_out_of_range :: py_error where
  "list_index_out_of_range = IndexError ''list index out of range''"

section \<open>match_stops_in_model\<close>

definition bus_station_ids :: "string list" where
  "bus_station_ids =
     [''450030204'', ''450030188'', ''450030189'', ''450030190'', ''450030182'', ''450030183'',
      ''450030184'', ''450030185'', ''450030186'', ''450030196'', ''450030197'', ''450030191'',
      ''450030192'', ''450030187'', ''450030194'', ''450030193'', ''450030195'', ''450030202'',
      ''450030203'', ''450030198'', ''450030199'', ''450030200'', ''450030201'', ''450030331'']"

text \<open>The loop of lines 51 to 57, with \<^verbatim>\<open>model_route\<close> as the accumulator.\<close>

fun match_stops_loop :: "catalog \<Rightarrow> stop list \<Rightarrow> stop list \<Rightarrow> stop list" where
  "match_stops_loop cat [] model_route = model_route"
| "match_stops_loop cat (stop # stops) model_route =
     (if cat (fst stop) \<noteq> None then match_stops_loop cat stops (model_route @ [stop])
      else if fst stop \<in> set bus_station_ids
        then match_stops_loop cat stops (model_route @ [(''Bus Station'', snd stop)])
      else match_stops_loop cat stops model_route)"

definition match_stops_in_model :: "catalog \<Rightarrow> stop list \<Rightarrow> stop list" where
  "match_stops_in_model cat stops = match_stops_loop cat stops []"

text \<open>
  The Stop Resolver in the words of the specification, one visit at a time: found
  directly, keep it; else a hub identifier, the shared hub stop with the visit's
  time; else drop it.
\<close>

definition resolve_visit :: "catalog \<Rightarrow> stop \<Rightarrow> stop option" where
  "resolve_visit cat visit =
     (case cat (fst visit) of
        Some found \<Rightarrow> Some visit
      | None \<Rightarrow> if fst visit \<in> set bus_station_ids
                 then Some (''Bus Station'', snd visit) else None)"

definition in_network :: "catalog \<Rightarrow> stop \<Rightarrow> bool" where
  "in_network cat visit = (resolve_visit cat visit \<noteq> None)"

section \<open>find_route_legs\<close>

text \<open>Python's \<^verbatim>\<open>"{}".format(n)\<close> for a natural number: its decimal digits.\<close>

fun string_of_nat :: "nat \<Rightarrow> string" where
  "string_of_nat n =
     (if n < 10 then [''0123456789'' ! n]
      else string_of_nat (n div 10) @ [''0123456789'' ! (n mod 10)])"

text \<open>A leg is the dictionary \<^verbatim>\<open>{"Route": route, "Stops": route_stops}\<close>.\<close>

record leg =
  Route :: "GKSection list"
  Stops :: "stop list"

text \<open>
  Lines 222 to 224: the section under every stop. A stop that the catalog does not
  find makes \<^verbatim>\<open>.getSection()\<close> raise on \<^verbatim>\<open>None\<close>, outside any \<^verbatim>\<open>try\<close>.
\<close>

fun find_sections :: "catalog \<Rightarrow> stop list \<Rightarrow> py_error + GKSection list" where
  "find_sections cat [] = Inr []"
| "find_sections cat (stop # stops) =
     (case cat (fst stop) of
        None \<Rightarrow> Inl (none_has_no ''getSection'')
      | Some obj \<Rightarrow>
          (case find_sections cat stops of
             Inl e \<Rightarrow> Inl e
           | Inr sections \<Rightarrow> Inr (getSection obj # sections)))"

text \<open>Lines 252 to 257: the links of a path are appended, but not one equal to the route's last link.\<close>

fun extend_route :: "GKSection list \<Rightarrow> GKSection list \<Rightarrow> GKSection list" where
  "extend_route route [] = route"
| "extend_route route (link # path) =
     extend_route
       (if length route = 0 then route @ [link]
        else if link \<noteq> last route then route @ [link] else route)
       path"

text \<open>The local variables of the loop of lines 232 to 259.\<close>

record stitching =
  legs :: "leg list"
  route :: "GKSection list"
  route_stops :: "stop list"

definition path_length_warning :: "string \<Rightarrow> string \<Rightarrow> nat \<Rightarrow> string" where
  "path_length_warning eid next_eid path_len =
     ''PATH LENGTH WARNING: A calculated path between stop '' @ eid @ '' and stop '' @ next_eid
       @ '' is '' @ string_of_nat path_len @ '' sections long. This could be inaccurate.''"

text \<open>
  One pass of the loop body, at index \<open>i\<close>, on the locals and the global
  \<^verbatim>\<open>error_log\<close>. The bare \<^verbatim>\<open>except: pass\<close> swallows what the body raises: the
  \<^verbatim>\<open>IndexError\<close> of \<^verbatim>\<open>sections[i + 1]\<close> at the last index, and whatever
  \<^verbatim>\<open>getPath\<close> raises; both happen before the body has changed anything. In
  \<open>find_route_legs\<close> the lists \<open>sections\<close> and \<open>stops\<close> have the same length, so
  \<^verbatim>\<open>stops[i]\<close> and \<^verbatim>\<open>stops[i + 1]\<close> are in range whenever \<^verbatim>\<open>sections[i + 1]\<close> is.
\<close>

definition route_step ::
  "sp_manager \<Rightarrow> stop list \<Rightarrow> GKSection list \<Rightarrow> nat \<Rightarrow> stitching \<times> string list
     \<Rightarrow> stitching \<times> string list" where
  "route_step sp stops sections i st =
     (let (loc, error_log) = st in
      if \<not> i + 1 < length sections then st
      else
        case sp (sections ! i) (sections ! (i + 1)) of
          None \<Rightarrow> st
        | Some path \<Rightarrow>
            let path_len = length path;
                stops_i = route_stops loc @ [stops ! i];
                warning = path_length_warning (fst (stops ! i)) (fst (stops ! (i + 1))) path_len;
                error_log' =
                  (if path_len > 20 \<and> warning \<notin> set error_log then error_log @ [warning]
                   else error_log)
            in if length path = 0
               then (\<lparr>legs = legs loc @ [\<lparr>Route = route loc, Stops = stops_i\<rparr>],
                       route = [], route_stops = []\<rparr>, error_log')
               else (\<lparr>legs = legs loc, route = extend_route (route loc) path,
                       route_stops = stops_i\<rparr>, error_log'))"

text \<open>
  The function returns the legs; the second component is the global
  \<^verbatim>\<open>error_log\<close> as the call leaves it. \<^verbatim>\<open>stops[-1]\<close> raises on an empty list.
\<close>

definition find_route_legs ::
  "catalog \<Rightarrow> sp_manager \<Rightarrow> stop list \<Rightarrow> string list \<Rightarrow> py_error + leg list \<times> string list" where
  "find_route_legs cat sp stops error_log =
     (case find_sections cat stops of
        Inl e \<Rightarrow> Inl e
      | Inr sections \<Rightarrow>
          (let (loc, error_log') =
                 fold (route_step sp stops sections) [0..<length sections]
                   (\<lparr>legs = [], route = [], route_stops = []\<rparr>, error_log)
           in if stops = [] then Inl list_index_out_of_range
              else Inr (legs loc @ [\<lparr>Route = route loc, Stops = route_stops loc @ [last stops]\<rparr>],
                        error_log')))"

text \<open>The invariant of the loop: neither a finished leg nor the working route repeats a link.\<close>

definition legs_clean :: "stitching \<times> string list \<Rightarrow> bool" where
  "legs_clean st =
     (distinct_adj (route (fst st)) \<and> list_all (\<lambda>l. distinct_adj (Route l)) (legs (fst st)))"

subsection \<open>A small network\<close>

text \<open>Three stops A, B and C on the sections 1, 2 and 3.\<close>

definition cat_abc :: catalog where
  "cat_abc eid =
     (if eid = ''A'' then Some \<lparr>getName = ''Alpha Road'', getSection = Section 1\<rparr>
      else if eid = ''B'' then Some \<lparr>getName = ''Beta Street'', getSection = Section 2\<rparr>
      else if eid = ''C'' then Some \<lparr>getName = ''Gamma Lane'', getSection = Section 3\<rparr>
      else None)"

text \<open>A path of three links from A to B, no path from B to C.\<close>

definition sp_abc :: sp_manager where
  "sp_abc s t =
     (if s = Section 1 \<and> t = Section 2 then Some [Section 1, Section 10, Section 2]
      else if s = Section 2 \<and> t = Section 3 then Some []
      else None)"

text \<open>Paths from A to B and from B to C that share the section of B.\<close>

definition sp_overlap :: sp_manager where
  "sp_overlap s t =
     (if s = Section 1 \<and> t = Section 2 then Some [Section 1, Section 10, Section 2]
      else if s = Section 2 \<and> t = Section 3 then Some [Section 2, Section 11, Section 3]
      else None)"

text \<open>The path query from A to B raises; the one from B to C answers.\<close>

definition sp_raises :: sp_manager where
  "sp_raises s t =
     (if s = Section 2 \<and> t = Section 3 then Some [Section 2, Section 11, Section 3] else None)"

definition trip_abc :: "stop list" where
  "trip_abc = [(''A'', ''08:00:00''), (''B'', ''08:05:00''), (''C'', ''08:10:00'')]"

section \<open>get_route_name\<close>

text \<open>The constant \<^verbatim>\<open>CSV_PATH\<close>, and the name of the file that \<^verbatim>\<open>get_timetable\<close> opens.\<close>

definition CSV_PATH :: string where
  "CSV_PATH = ''C:'' @ backslash @ ''Users'' @ backslash @ ''Joel.Perren'' @ backslash
     @ ''Documents'' @ backslash @ ''Traveline Data'' @ backslash @ ''TransXChange'' @ backslash
     @ ''Wakefield Aimsun Model'' @ backslash @ ''CSV''"

definition csv_file_name :: "string \<Rightarrow> string" where
  "csv_file_name csv_file = CSV_PATH @ backslash @ csv_file"

text \<open>
  \<^verbatim>\<open>os.path.basename\<close> on Windows: a drive letter with its colon is split off, and
  the result is what follows the last slash or backslash of the rest.
\<close>

definition basename :: "string \<Rightarrow> string" where
  "basename p =
     (let rest = (if 2 \<le> length p \<and> p ! 1 = CHR '':'' then drop 2 p else p)
      in rev (takeWhile (\<lambda>c. c \<noteq> CHR ''/'' \<and> [c] \<noteq> backslash) (rev rest)))"

text \<open>
  \<^verbatim>\<open>s.strip(chars)\<close>: the characters of \<open>chars\<close> are a set; leading ones are
  removed, then trailing ones.
\<close>

definition py_strip :: "string \<Rightarrow> string \<Rightarrow> string" where
  "py_strip chars s =
     rev (dropWhile (\<lambda>c. c \<in> set chars) (rev (dropWhile (\<lambda>c. c \<in> set chars) s)))"

text \<open>The argument \<open>file_name\<close> is \<^verbatim>\<open>file.name\<close>.\<close>

definition get_route_name :: "catalog \<Rightarrow> string \<Rightarrow> string \<Rightarrow> string \<Rightarrow> py_error + string" where
  "get_route_name cat file_name first_stop last_stop =
     (let filename = py_strip ''.csv'' (basename file_name) in
      case cat first_stop of
        None \<Rightarrow> Inl (none_has_no ''getName'')
      | Some fs \<Rightarrow>
          (case cat last_stop of
             None \<Rightarrow> Inl (none_has_no ''getName'')
           | Some ls \<Rightarrow>
               Inr (filename @ '': '' @ getName fs @ '' ['' @ first_stop @ ''] to ''
                      @ getName ls @ '' ['' @ last_stop @ '']'')))"

section \<open>Public transport lines\<close>

text \<open>
  The objects that \<^verbatim>\<open>create_pt_line\<close> and \<^verbatim>\<open>add_departure\<close> build, as values:
  a line owns its timetables, a timetable its schedules, a schedule its departures
  and its stop times. A time of day or a duration is the triple of hours, minutes and
  seconds given to \<^verbatim>\<open>QTime\<close> or \<^verbatim>\<open>GKTimeDuration\<close>; a departure keeps the text that
  \<^verbatim>\<open>QTime.fromString\<close> is given. \<open>stopTimes\<close> is what \<^verbatim>\<open>getStopTime\<close> reads and
  \<^verbatim>\<open>setStopTime\<close> writes, as mean and deviation.
\<close>

record departure =
  departureTime :: string
  vehicle :: nat
  meanTime :: "nat \<times> nat \<times> nat"

datatype departure_type = eFixed | eInterval

record schedule =
  schedule_time :: "nat \<times> nat \<times> nat"
  departureType :: departure_type
  duration :: "nat \<times> nat \<times> nat"
  departures :: "departure list"
  stopTimes :: "GKBusStop option \<times> nat \<Rightarrow> real \<times> real"

record timetable =
  timetable_name :: string
  schedules :: "schedule list"

record pt_line =
  line_name :: string
  line_route :: "GKSection list"
  line_stops :: "GKBusStop option list"
  timeTables :: "timetable list"

section \<open>set_dwell_times\<close>





section \<open>output_errors\<close>

text \<open>\<^verbatim>\<open>datetime.datetime.now()\<close>, with the fields that the two formats print.\<close>

record datetime =
  year :: nat
  month :: nat
  day :: nat
  hour :: nat
  minute :: nat

definition pad2 :: "nat \<Rightarrow> string" where
  "pad2 n = (if n < 10 then ''0'' @ string_of_nat n else string_of_nat n)"

text \<open>\<^verbatim>\<open>now.strftime("%d/%m/%Y")\<close> and \<^verbatim>\<open>now.strftime("%H:%M")\<close>, for a year of four digits.\<close>

definition strftime_dmY :: "datetime \<Rightarrow> string" where
  "strftime_dmY now = pad2 (day now) @ ''/'' @ pad2 (month now) @ ''/'' @ string_of_nat (year now)"

definition strftime_HM :: "datetime \<Rightarrow> string" where
  "strftime_HM now = pad2 (hour now) @ '':'' @ pad2 (minute now)"

text \<open>What the call leaves behind: the file written (name and content), and the text printed.\<close>

record report =
  log_file :: "(string \<times> string) option"
  printed :: string

text \<open>Lines 361 and 362, with the content of the file so far as the accumulator.\<close>

fun write_errors :: "string \<Rightarrow> string list \<Rightarrow> string" where
  "write_errors f [] = f"
| "write_errors f (error # errors) = write_errors (f @ error @ newline) errors"

definition output_errors :: "datetime \<Rightarrow> string list \<Rightarrow> report" where
  "output_errors now errors =
     (let num = length errors in
      if num > 1 then
        (let name = CSV_PATH @ backslash @ ''Error Log.txt'';
             f0 = [];
             f1 = f0 @ strftime_dmY now @ newline;
             f2 = f1 @ strftime_HM now @ newline;
             f3 = f2 @ newline;
             f4 = f3 @ string_of_nat (length errors) @ '' errors'' @ newline;
             f5 = f4 @ newline;
             f6 = write_errors f5 errors
         in \<lparr>log_file = Some (name, f6),
              printed = ''Load Bus Timetable script complete!'' @ newline @ string_of_nat num
                @ '' warnings output to '' @ name @ ''.''\<rparr>)
      else \<lparr>log_file = None,
             printed = ''Load Bus Timetable complete!'' @ newline @ ''No warnings reported.''\<rparr>)"

text \<open>A text file of the given lines, each ended by a newline.\<close>

definition unlines :: "string list \<Rightarrow> string" where
  "unlines ls = concat (map (\<lambda>l. l @ newline) ls)"

section \<open>The script's state\<close>

text \<open>
  What the script changes while it runs: the public lines of the catalog, in the
  order of their creation, and the global \<^verbatim>\<open>error_log\<close>. A line made by
  \<^verbatim>\<open>newObject\<close> is in the catalog from then on, and \<^verbatim>\<open>findByName\<close> answers with
  the first line of that name; a line is referred to by its position.
\<close>

record script_state =
  lines :: "pt_line list"
  error_log :: "string list"

definition BUS_ID :: nat where
  "BUS_ID = 9"

fun findByName :: "string \<Rightarrow> pt_line list \<Rightarrow> nat option" where
  "findByName name [] = None"
| "findByName name (l # ls) =
     (if line_name l = name then Some 0 else map_option Suc (findByName name ls))"

section \<open>calculate_pt_leg, create_pt_line, add_departure\<close>

text \<open>Lines 117 to 126: the first stop of the leg that sits on the link, if any.\<close>

fun stop_on_link :: "catalog \<Rightarrow> GKSection \<Rightarrow> stop list \<Rightarrow> py_error + GKBusStop option" where
  "stop_on_link cat link [] = Inr None"
| "stop_on_link cat link (stop # stops) =
     (case cat (fst stop) of
        None \<Rightarrow> Inl (none_has_no ''getSection'')
      | Some stop_obj \<Rightarrow>
          if getId (getSection stop_obj) = getId link then Inr (Some stop_obj)
          else stop_on_link cat link stops)"

text \<open>Lines 114 to 126: one slot for every link of the route.\<close>

fun added_stops :: "catalog \<Rightarrow> GKSection list \<Rightarrow> stop list \<Rightarrow> py_error + GKBusStop option list" where
  "added_stops cat [] stops = Inr []"
| "added_stops cat (link # links) stops =
     (case stop_on_link cat link stops of
        Inl e \<Rightarrow> Inl e
      | Inr slot \<Rightarrow>
          (case added_stops cat links stops of
             Inl e \<Rightarrow> Inl e
           | Inr slots \<Rightarrow> Inr (slot # slots)))"

text \<open>
  A function that changes the line and may raise returns the error, if any, and the
  line as it is at that point.
\<close>

definition calculate_pt_leg :: "catalog \<Rightarrow> pt_line \<Rightarrow> leg \<Rightarrow> py_error option \<times> pt_line" where
  "calculate_pt_leg cat pt_line l =
     (let routed = pt_line\<lparr>line_route := Route l\<rparr> in
      case added_stops cat (Route l) (Stops l) of
        Inl e \<Rightarrow> (Some e, routed)
      | Inr slots \<Rightarrow> (None, routed\<lparr>line_stops := slots\<rparr>))"

text \<open>
  The schedule of \<^verbatim>\<open>createNewSchedule\<close> after lines 154 to 156. Its stop times
  start at mean 0 and deviation 0, the unset value that \<^verbatim>\<open>set_dwell_times\<close> looks for.
\<close>

definition new_schedule :: schedule where
  "new_schedule =
     \<lparr>schedule_time = (0, 0, 0), departureType = eFixed, duration = (23, 59, 59),
      departures = [], stopTimes = (\<lambda>k. (0, 0))\<rparr>"

definition create_pt_line :: "catalog \<Rightarrow> string \<Rightarrow> leg \<Rightarrow> py_error option \<times> pt_line" where
  "create_pt_line cat name l =
     (let pt_line = \<lparr>line_name = name, line_route = [], line_stops = [], timeTables = []\<rparr> in
      case calculate_pt_leg cat pt_line l of
        (Some e, made) \<Rightarrow> (Some e, made)
      | (None, made) \<Rightarrow>
          (None, made\<lparr>timeTables :=
             timeTables made @ [\<lparr>timetable_name = ''Timetable - '' @ name, schedules = [new_schedule]\<rparr>]\<rparr>))"

text \<open>\<^verbatim>\<open>getTimeTables()[0]\<close> and \<^verbatim>\<open>getSchedules()[0]\<close> raise on an empty list.\<close>

definition add_departure :: "pt_line \<Rightarrow> string \<Rightarrow> py_error + pt_line" where
  "add_departure pt_line time =
     (case timeTables pt_line of
        [] \<Rightarrow> Inl list_index_out_of_range
      | tt # tts \<Rightarrow>
          (case schedules tt of
             [] \<Rightarrow> Inl list_index_out_of_range
           | sched # scheds \<Rightarrow>
               Inr (pt_line\<lparr>timeTables :=
                      tt\<lparr>schedules :=
                           sched\<lparr>departures := departures sched
                             @ [\<lparr>departureTime = time, vehicle = BUS_ID, meanTime = (0, 0, 0)\<rparr>]\<rparr>
                           # scheds\<rparr> # tts\<rparr>)))"

section \<open>get_timetable\<close>

text \<open>
  The body of the loop of lines 309 to 319 for one leg. The state returned with an
  error is the state at the raise: a line created before it stays in the catalog.
\<close>

definition process_leg :: "catalog \<Rightarrow> string \<Rightarrow> leg \<Rightarrow> script_state \<Rightarrow> py_error option \<times> script_state" where
  "process_leg cat file_name l st =
     (if length (Stops l) < 2 then (None, st)
      else
        case get_route_name cat file_name (fst (hd (Stops l))) (fst (last (Stops l))) of
          Inl e \<Rightarrow> (Some e, st)
        | Inr leg_name \<Rightarrow>
            (case findByName leg_name (lines st) of
               None \<Rightarrow>
                 (case create_pt_line cat leg_name l of
                    (Some e, made) \<Rightarrow> (Some e, st\<lparr>lines := lines st @ [made]\<rparr>)
                  | (None, made) \<Rightarrow>
                      (case add_departure made (snd (hd (Stops l))) of
                         Inl e \<Rightarrow> (Some e, st\<lparr>lines := lines st @ [made]\<rparr>)
                       | Inr timed \<Rightarrow> (None, st\<lparr>lines := lines st @ [timed]\<rparr>)))
             | Some k \<Rightarrow>
                 (case add_departure (lines st ! k) (snd (hd (Stops l))) of
                    Inl e \<Rightarrow> (Some e, st)
                  | Inr timed \<Rightarrow> (None, st\<lparr>lines := (lines st)[k := timed]\<rparr>))))"

fun legs_loop :: "catalog \<Rightarrow> string \<Rightarrow> leg list \<Rightarrow> script_state \<Rightarrow> py_error option \<times> script_state" where
  "legs_loop cat file_name [] st = (None, st)"
| "legs_loop cat file_name (l # route_legs) st =
     (case process_leg cat file_name l st of
        (Some e, st') \<Rightarrow> (Some e, st')
      | (None, st') \<Rightarrow> legs_loop cat file_name route_legs st')"

subsection \<open>Reading a row\<close>

text \<open>The characters that \<^verbatim>\<open>strip()\<close> without an argument removes.\<close>

definition whitespace :: string where
  "whitespace = [CHR '' '', CHR 0x09, CHR 0x0A, CHR 0x0D, CHR 0x0B, CHR 0x0C]"

text \<open>\<^verbatim>\<open>s.split(",")\<close>: the result always has a first element.\<close>

fun split_from :: "char \<Rightarrow> string \<Rightarrow> string \<Rightarrow> string list" where
  "split_from sep piece [] = [piece]"
| "split_from sep piece (c # cs) =
     (if c = sep then piece # split_from sep [] cs else split_from sep (piece @ [c]) cs)"

definition split_on :: "char \<Rightarrow> string \<Rightarrow> string list" where
  "split_on sep s = split_from sep [] s"

text \<open>
  \<^verbatim>\<open>re.sub(r'\([^)]*\)', '', stop)\<close>: an opening parenthesis with a closing one
  somewhere after it is removed together with everything up to the first closing one.
\<close>

function re_sub_parens :: "string \<Rightarrow> string" where
  "re_sub_parens [] = []"
| "re_sub_parens (c # cs) =
     (if c = CHR ''('' \<and> CHR '')'' \<in> set cs
      then re_sub_parens (tl (dropWhile (\<lambda>x. x \<noteq> CHR '')'') cs))
      else c # re_sub_parens cs)"
  by pat_completeness auto
termination
  by (relation "measure length")
     (auto simp: less_Suc_eq_le intro!: order_trans [OF diff_le_self length_dropWhile_le])

text \<open>
  \<^verbatim>\<open>re.search(r'\((.*?)\)', stop)\<close>, as the group if there is a match: the text
  between the first opening parenthesis that is followed, with no newline between, by
  a closing one, and that closing one.
\<close>

fun re_search_group :: "string \<Rightarrow> string option" where
  "re_search_group [] = None"
| "re_search_group (c # cs) =
     (if c = CHR ''(''
         \<and> dropWhile (\<lambda>x. x \<noteq> CHR '')'' \<and> x \<noteq> CHR 0x0A) cs \<noteq> []
         \<and> hd (dropWhile (\<lambda>x. x \<noteq> CHR '')'' \<and> x \<noteq> CHR 0x0A) cs) = CHR '')''
      then Some (takeWhile (\<lambda>x. x \<noteq> CHR '')'' \<and> x \<noteq> CHR 0x0A) cs)
      else re_search_group cs)"

text \<open>Lines 296 to 299; \<^verbatim>\<open>.group(1)\<close> raises when the search found nothing.\<close>

fun parse_stops :: "string list \<Rightarrow> py_error + stop list" where
  "parse_stops [] = Inr []"
| "parse_stops (stop # data) =
     (let stop_eid = py_strip whitespace (re_sub_parens stop) in
      case re_search_group stop of
        None \<Rightarrow> Inl (none_has_no ''group'')
      | Some time \<Rightarrow>
          (case parse_stops data of
             Inl e \<Rightarrow> Inl e
           | Inr stops \<Rightarrow> Inr ((stop_eid, time) # stops)))"


text \<open>The loop of lines 289 to 319 over the enumerated rows.\<close>

fun rows_loop ::
  "catalog \<Rightarrow> sp_manager \<Rightarrow> string \<Rightarrow> (nat \<times> string) list \<Rightarrow> script_state
     \<Rightarrow> py_error option \<times> script_state" where
  "rows_loop cat sp file_name [] st = (None, st)"
| "rows_loop cat sp file_name ((i, row) # rows) st =
     (let data = split_on CHR '','' (py_strip whitespace row) in
      if i = 0 then rows_loop cat sp file_name rows st
      else
        case parse_stops data of
          Inl e \<Rightarrow> (Some e, st)
        | Inr stops \<Rightarrow>
            (let model_stops = match_stops_in_model cat stops in
             if length model_stops = 0 then rows_loop cat sp file_name rows st
             else
               case find_route_legs cat sp model_stops (error_log st) of
                 Inl e \<Rightarrow> (Some e, st)
               | Inr (route_legs, error_log') \<Rightarrow>
                   (case legs_loop cat file_name route_legs (st\<lparr>error_log := error_log'\<rparr>) of
                      (Some e, st') \<Rightarrow> (Some e, st')
                    | (None, st') \<Rightarrow> rows_loop cat sp file_name rows st')))"


section \<open>The main loop\<close>



subsection \<open>Two files\<close>

definition st0 :: script_state where
  "st0 = \<lparr>lines = [], error_log = []\<rparr>"


section \<open>What a run leaves in the catalog\<close>

text \<open>A line with exactly one timetable, which has exactly one schedule.\<close>

definition single_schedule :: "pt_line \<Rightarrow> bool" where
  "single_schedule l = (map (\<lambda>tt. length (schedules tt)) (timeTables l) = [1])"

text \<open>The departure times of a line, and of the lines of a given name, in their order.\<close>

definition line_departures :: "pt_line \<Rightarrow> string list" where
  "line_departures l =
     concat (map (\<lambda>tt. concat (map (\<lambda>sched. map departureTime (departures sched)) (schedules tt)))
               (timeTables l))"

definition departure_times :: "string \<Rightarrow> pt_line list \<Rightarrow> string list" where
  "departure_times name ls = concat (map line_departures (filter (\<lambda>l. line_name l = name) ls))"

text \<open>The name that the loop of \<^verbatim>\<open>get_timetable\<close> computes for a leg (line 313).\<close>

definition leg_name :: "catalog \<Rightarrow> string \<Rightarrow> leg \<Rightarrow> py_error + string" where
  "leg_name cat file_name l =
     get_route_name cat file_name (fst (hd (Stops l))) (fst (last (Stops l)))"

text \<open>
  The legs with at least two stops whose computed name is the given one, and the
  visit times of their first stops, in the order of the legs.
\<close>

definition named_legs :: "catalog \<Rightarrow> string \<Rightarrow> string \<Rightarrow> leg list \<Rightarrow> leg list" where
  "named_legs cat file_name name route_legs =
     filter (\<lambda>l. 2 \<le> length (Stops l) \<and> leg_name cat file_name l = Inr name) route_legs"

definition leg_times :: "catalog \<Rightarrow> string \<Rightarrow> string \<Rightarrow> leg list \<Rightarrow> string list" where
  "leg_times cat file_name name route_legs =
     map (\<lambda>l. snd (hd (Stops l))) (named_legs cat file_name name route_legs)"

text \<open>Every stop of the leg is found by the catalog, as for a leg of find_route_legs.\<close>

definition stops_known :: "catalog \<Rightarrow> leg \<Rightarrow> bool" where
  "stops_known cat l = list_all (\<lambda>s. cat (fst s) \<noteq> None) (Stops l)"

text \<open>No two lines share a name, and every line has its single timetable and schedule.\<close>

definition tidy :: "pt_line list \<Rightarrow> bool" where
  "tidy ls = (distinct (map line_name ls) \<and> list_all single_schedule ls)"

text \<open>Two legs from A to B, as two trips of one file give them.\<close>

definition two_legs :: "leg list" where
  "two_legs =
     [\<lparr>Route = [Section 1, Section 10, Section 2],
       Stops = [(''A'', ''08:00:00''), (''B'', ''08:05:00'')]\<rparr>,
      \<lparr>Route = [Section 1, Section 10, Section 2],
       Stops = [(''A'', ''10:00:00''), (''B'', ''10:05:00'')]\<rparr>]"



section \<open>Properties of match_stops_in_model\<close>

lemma match_stops_loop_acc:
  "match_stops_loop cat stops acc = acc @ List.map_filter (resolve_visit cat) stops"
  by (induction stops arbitrary: acc)
     (auto simp: resolve_visit_def split: option.splits)

lemma map_filter_times_subseq:
  "subseq (map snd (List.map_filter (resolve_visit cat) stops)) (map snd stops)"
  by (induction stops) (auto simp: resolve_visit_def split: option.splits)

text \<open>
  Claim C7. The stops matched in the model are the input visits resolved one by one
  in input order: a visit found directly is kept as it is, a visit not found whose
  identifier is a bus station identifier becomes the ``Bus Station'' stop with its
  own time, every other visit is dropped. The kept visits are a subsequence of the
  input, and so are the visit times of the result. The function is total: it
  returns a list (the empty one included) and has no error outcome.
\<close>

theorem match_stops_in_model_resolves:
  "match_stops_in_model cat stops = List.map_filter (resolve_visit cat) stops
   \<and> match_stops_in_model cat stops =
       map (\<lambda>visit. if cat (fst visit) \<noteq> None then visit else (''Bus Station'', snd visit))
         (filter (in_network cat) stops)
   \<and> subseq (filter (in_network cat) stops) stops
   \<and> subseq (map snd (match_stops_in_model cat stops)) (map snd stops)
   \<and> match_stops_in_model cat [] = []"
proof -
  have run: "match_stops_in_model cat stops = List.map_filter (resolve_visit cat) stops"
    by (simp add: match_stops_in_model_def match_stops_loop_acc)
  have shape: "List.map_filter (resolve_visit cat) stops =
      map (\<lambda>visit. if cat (fst visit) \<noteq> None then visit else (''Bus Station'', snd visit))
        (filter (in_network cat) stops)"
    by (induction stops)
       (auto simp: resolve_visit_def in_network_def split: option.splits)
  show ?thesis
    using run shape map_filter_times_subseq [of cat stops]
    by (simp add: match_stops_in_model_def)
qed

section \<open>Properties of find_route_legs\<close>

lemma find_sections_length:
  "find_sections cat stops = Inr sections \<Longrightarrow> length sections = length stops"
  by (induction stops arbitrary: sections) (auto split: option.splits sum.splits)

lemma extend_route_distinct_adj:
  "distinct_adj r \<Longrightarrow> distinct_adj (extend_route r path)"
  by (induction path arbitrary: r) (auto simp: distinct_adj_append_iff)

lemma extend_route_clean:
  "distinct_adj (r @ path) \<Longrightarrow> extend_route r path = r @ path"
proof (induction path arbitrary: r)
  case Nil
  then show ?case by simp
next
  case (Cons link path)
  have step: "distinct_adj ((r @ [link]) @ path)"
    using Cons.prems by simp
  have last_differs: "r \<noteq> [] \<Longrightarrow> link \<noteq> last r"
    using Cons.prems by (auto simp: distinct_adj_append_iff)
  show ?case
    using Cons.IH [OF step] last_differs by auto
qed

lemma route_step_clean: "legs_clean st \<Longrightarrow> legs_clean (route_step sp stops sections i st)"
  by (cases st)
     (auto simp: legs_clean_def route_step_def Let_def extend_route_distinct_adj
           split: option.splits)

lemma route_loop_clean:
  "legs_clean st \<Longrightarrow> legs_clean (fold (route_step sp stops sections) js st)"
  by (induction js arbitrary: st) (auto simp: route_step_clean)

text \<open>
  Claim C5. Whatever paths the shortest-path manager returns, no leg that
  find_route_legs returns has two equal links next to each other in its route.
\<close>

theorem find_route_legs_no_adjacent_duplicates:
  assumes "find_route_legs cat sp stops elog = Inr (route_legs, elog')"
    and "l \<in> set route_legs"
  shows "distinct_adj (Route l)"
proof -
  obtain sections where secs: "find_sections cat stops = Inr sections"
    using assms(1) by (auto simp: find_route_legs_def split: sum.splits)
  define final where
    "final = fold (route_step sp stops sections) [0..<length sections]
       (\<lparr>legs = [], route = [], route_stops = []\<rparr>, elog)"
  have "legs_clean (\<lparr>legs = [], route = [], route_stops = []\<rparr>, elog)"
    by (simp add: legs_clean_def)
  then have clean: "legs_clean final"
    unfolding final_def by (rule route_loop_clean)
  have "route_legs = legs (fst final) @
      [\<lparr>Route = route (fst final), Stops = route_stops (fst final) @ [last stops]\<rparr>]"
    using assms(1) secs
    by (auto simp: find_route_legs_def final_def split: prod.splits if_splits)
  then show ?thesis
    using clean assms(2) by (auto simp: legs_clean_def list_all_iff)
qed

lemma upt_three: "[0..<3] = [0, 1, 2]"
  by (simp add: upt_rec)

theorem find_route_legs_no_adjacent_duplicates_witness:
  "find_route_legs cat_abc sp_overlap trip_abc [] =
     Inr ([\<lparr>Route = [Section 1, Section 10, Section 2, Section 11, Section 3],
             Stops = trip_abc\<rparr>], [])
   \<and> distinct_adj [Section 1, Section 10, Section 2, Section 11, Section 3]"
proof -
  have run: "find_route_legs cat_abc sp_overlap trip_abc [] =
     Inr ([\<lparr>Route = [Section 1, Section 10, Section 2, Section 11, Section 3],
             Stops = trip_abc\<rparr>], [])"
    by (simp add: find_route_legs_def trip_abc_def cat_abc_def sp_overlap_def route_step_def
          upt_three Let_def)
  show ?thesis
    using run find_route_legs_no_adjacent_duplicates [OF run, of
        "\<lparr>Route = [Section 1, Section 10, Section 2, Section 11, Section 3], Stops = trip_abc\<rparr>"]
    by simp
qed

text \<open>
  Claim C4. When the path query for the pair of stops \<open>i\<close> and \<open>i + 1\<close> raises, the
  pass of the loop for that pair changes nothing: the legs, the working route, the
  working stops (stop \<open>i\<close> is not appended) and the error log are what they were,
  and the loop goes on with the remaining pairs from that unchanged state.
\<close>

theorem route_step_swallows_path_failure:
  assumes "i + 1 < length sections"
    and "sp (sections ! i) (sections ! (i + 1)) = None"
  shows "route_step sp stops sections i (loc, elog) = (loc, elog)
     \<and> fold (route_step sp stops sections) (i # js) (loc, elog)
         = fold (route_step sp stops sections) js (loc, elog)"
  using assms by (simp add: route_step_def)

theorem route_step_swallows_path_failure_witness:
  "0 + 1 < length [Section 1, Section 2, Section 3]
   \<and> sp_raises ([Section 1, Section 2, Section 3] ! 0) ([Section 1, Section 2, Section 3] ! (0 + 1)) = None
   \<and> route_step sp_raises trip_abc [Section 1, Section 2, Section 3] 0
        (\<lparr>legs = [], route = [], route_stops = []\<rparr>, []) = (\<lparr>legs = [], route = [], route_stops = []\<rparr>, [])
   \<and> find_route_legs cat_abc sp_raises trip_abc [] =
        Inr ([\<lparr>Route = [Section 2, Section 11, Section 3],
                Stops = [(''B'', ''08:05:00''), (''C'', ''08:10:00'')]\<rparr>], [])"
proof -
  have bound: "0 + 1 < length [Section 1, Section 2, Section 3]"
    by simp
  have raises: "sp_raises ([Section 1, Section 2, Section 3] ! 0)
      ([Section 1, Section 2, Section 3] ! (0 + 1)) = None"
    by (simp add: sp_raises_def)
  have run: "find_route_legs cat_abc sp_raises trip_abc [] =
        Inr ([\<lparr>Route = [Section 2, Section 11, Section 3],
                Stops = [(''B'', ''08:05:00''), (''C'', ''08:10:00'')]\<rparr>], [])"
    by (simp add: find_route_legs_def trip_abc_def cat_abc_def sp_raises_def route_step_def
          upt_three Let_def)
  show ?thesis
    using bound raises run
      route_step_swallows_path_failure [where i = 0 and sp = sp_raises
        and sections = "[Section 1, Section 2, Section 3]" and stops = trip_abc
        and loc = "\<lparr>legs = [], route = [], route_stops = []\<rparr>" and elog = "[]" and js = "[]"]
    by simp
qed

text \<open>
  Claim C1, as the code has it. For the trip of the stops A, B and C, with a path of
  three links (no two neighbours equal) from A to B and the empty path from B to C,
  find_route_legs returns two legs: the first with the three links and the stops A
  and B, the second with the empty route and the single stop C. Stop B closes the
  first leg and is not repeated in the second, so the second leg has one stop.
\<close>

theorem find_route_legs_example:
  assumes "cat ''A'' = Some a" and "cat ''B'' = Some b" and "cat ''C'' = Some c"
    and "sp (getSection a) (getSection b) = Some path"
    and "length path = 3" and "distinct_adj path"
    and "sp (getSection b) (getSection c) = Some []"
  shows "find_route_legs cat sp
       [(''A'', ''08:00:00''), (''B'', ''08:05:00''), (''C'', ''08:10:00'')] elog =
     Inr ([\<lparr>Route = path, Stops = [(''A'', ''08:00:00''), (''B'', ''08:05:00'')]\<rparr>,
           \<lparr>Route = [], Stops = [(''C'', ''08:10:00'')]\<rparr>], elog)"
proof -
  have "extend_route [] path = [] @ path"
    by (rule extend_route_clean) (simp add: assms(6))
  then show ?thesis
    using assms by (simp add: find_route_legs_def route_step_def upt_three Let_def)
qed

theorem find_route_legs_example_witness:
  "cat_abc ''A'' = Some \<lparr>getName = ''Alpha Road'', getSection = Section 1\<rparr>
   \<and> cat_abc ''B'' = Some \<lparr>getName = ''Beta Street'', getSection = Section 2\<rparr>
   \<and> cat_abc ''C'' = Some \<lparr>getName = ''Gamma Lane'', getSection = Section 3\<rparr>
   \<and> sp_abc (Section 1) (Section 2) = Some [Section 1, Section 10, Section 2]
   \<and> length [Section 1, Section 10, Section 2] = 3
   \<and> distinct_adj [Section 1, Section 10, Section 2]
   \<and> sp_abc (Section 2) (Section 3) = Some []
   \<and> find_route_legs cat_abc sp_abc trip_abc [] =
       Inr ([\<lparr>Route = [Section 1, Section 10, Section 2],
               Stops = [(''A'', ''08:00:00''), (''B'', ''08:05:00'')]\<rparr>,
             \<lparr>Route = [], Stops = [(''C'', ''08:10:00'')]\<rparr>], [])"
proof -
  have a: "cat_abc ''A'' = Some \<lparr>getName = ''Alpha Road'', getSection = Section 1\<rparr>"
    and b: "cat_abc ''B'' = Some \<lparr>getName = ''Beta Street'', getSection = Section 2\<rparr>"
    and c: "cat_abc ''C'' = Some \<lparr>getName = ''Gamma Lane'', getSection = Section 3\<rparr>"
    by (simp_all add: cat_abc_def)
  have ab: "sp_abc (getSection \<lparr>getName = ''Alpha Road'', getSection = Section 1\<rparr>)
        (getSection \<lparr>getName = ''Beta Street'', getSection = Section 2\<rparr>)
      = Some [Section 1, Section 10, Section 2]"
    and bc: "sp_abc (getSection \<lparr>getName = ''Beta Street'', getSection = Section 2\<rparr>)
        (getSection \<lparr>getName = ''Gamma Lane'', getSection = Section 3\<rparr>) = Some []"
    by (simp_all add: sp_abc_def)
  have three: "length [Section 1, Section 10, Section 2] = 3"
    and clean: "distinct_adj [Section 1, Section 10, Section 2]"
    by simp_all
  show ?thesis
    using a b c ab bc find_route_legs_example [OF a b c ab three clean bc, of "[]"]
    by (simp add: trip_abc_def)
qed

text \<open>
  The example as the specification words it, with the second leg holding the stops
  B and C, is not what find_route_legs returns on this network.
\<close>

theorem find_route_legs_example_counterexample:
  "sp_abc (Section 1) (Section 2) = Some [Section 1, Section 10, Section 2]
   \<and> sp_abc (Section 2) (Section 3) = Some []
   \<and> find_route_legs cat_abc sp_abc trip_abc [] \<noteq>
       Inr ([\<lparr>Route = [Section 1, Section 10, Section 2],
               Stops = [(''A'', ''08:00:00''), (''B'', ''08:05:00'')]\<rparr>,
             \<lparr>Route = [], Stops = [(''B'', ''08:05:00''), (''C'', ''08:10:00'')]\<rparr>], [])"
  by (simp add: find_route_legs_def trip_abc_def cat_abc_def sp_abc_def route_step_def
        upt_three Let_def)

section \<open>Properties of get_route_name\<close>

lemma rev_split: "xs = rev (dropWhile P (rev xs)) @ rev (takeWhile P (rev xs))"
  by (metis rev_append rev_rev_ident takeWhile_dropWhile_id)

lemma py_strip_split:
  "\<exists>lead trail. s = lead @ py_strip chars s @ trail
     \<and> set lead \<subseteq> set chars \<and> set trail \<subseteq> set chars"
proof -
  define inner where "inner = dropWhile (\<lambda>c. c \<in> set chars) s"
  have front: "s = takeWhile (\<lambda>c. c \<in> set chars) s @ inner"
    by (simp add: inner_def)
  have rear: "inner = py_strip chars s @ rev (takeWhile (\<lambda>c. c \<in> set chars) (rev inner))"
    unfolding py_strip_def inner_def by (rule rev_split)
  have lead: "set (takeWhile (\<lambda>c. c \<in> set chars) s) \<subseteq> set chars"
    by (auto dest: set_takeWhileD)
  have trail: "set (rev (takeWhile (\<lambda>c. c \<in> set chars) (rev inner))) \<subseteq> set chars"
    by (auto dest: set_takeWhileD)
  have "s = takeWhile (\<lambda>c. c \<in> set chars) s @ py_strip chars s
      @ rev (takeWhile (\<lambda>c. c \<in> set chars) (rev inner))"
    using front rear by simp
  then show ?thesis
    using lead trail by blast
qed

lemma py_strip_ends:
  assumes "py_strip chars s \<noteq> []"
  shows "hd (py_strip chars s) \<notin> set chars \<and> last (py_strip chars s) \<notin> set chars"
proof -
  define inner where "inner = dropWhile (\<lambda>c. c \<in> set chars) s"
  define kept where "kept = dropWhile (\<lambda>c. c \<in> set chars) (rev inner)"
  have strip: "py_strip chars s = rev kept"
    by (simp add: py_strip_def inner_def kept_def)
  have kept_ne: "kept \<noteq> []"
    using assms strip by simp
  then have hd_kept: "hd kept \<notin> set chars"
    unfolding kept_def by (metis hd_dropWhile)
  have inner_ne: "inner \<noteq> []"
    using kept_ne by (auto simp: kept_def)
  then have hd_inner: "hd inner \<notin> set chars"
    unfolding inner_def by (metis hd_dropWhile)
  have "\<exists>ys. rev inner = ys @ kept"
    unfolding kept_def by (metis takeWhile_dropWhile_id)
  then obtain ys where "rev inner = ys @ kept"
    by blast
  then have "inner = rev kept @ rev ys"
    by (metis rev_append rev_rev_ident)
  then have "hd inner = hd (rev kept)"
    using kept_ne by simp
  then have "hd (rev kept) \<notin> set chars"
    using hd_inner by simp
  moreover have "last (rev kept) = hd kept"
    using kept_ne by (simp add: last_rev)
  ultimately show ?thesis
    using strip hd_kept by simp
qed

lemma basename_csv_file_name:
  assumes "CHR ''/'' \<notin> set csv_file" and "CHR 0x5C \<notin> set csv_file"
  shows "basename (csv_file_name csv_file) = csv_file"
proof -
  have "takeWhile (\<lambda>c. c \<noteq> CHR ''/'' \<and> c \<noteq> CHR 0x5C) (rev csv_file @ CHR 0x5C # rest)
      = rev csv_file" for rest
    by (subst takeWhile_append2) (use assms in auto)
  then show ?thesis
    by (simp add: basename_def csv_file_name_def CSV_PATH_def backslash_def)
qed

lemma strip_services: "py_strip ''.csv'' ''services.csv'' = ''ervice''"
  by (simp add: py_strip_def)

lemma strip_ervice: "py_strip ''.csv'' ''ervice.csv'' = ''ervice''"
  by (simp add: py_strip_def)

text \<open>
  Claim C10. The source prefix of a line name is the base name of the file with
  every leading and every trailing character among \<open>.\<close>, \<open>c\<close>, \<open>s\<close> and \<open>v\<close>
  removed: the base name is the prefix between a run of such characters on each
  side, and the prefix neither starts nor ends with one. So the file
  \<^verbatim>\<open>services.csv\<close> gets the prefix \<^verbatim>\<open>ervice\<close>, not its stem, and the two files
  \<^verbatim>\<open>services.csv\<close> and \<^verbatim>\<open>ervice.csv\<close> compute the same line names.
\<close>

theorem get_route_name_strips_csv_characters:
  assumes "cat first_stop = Some fs" and "cat last_stop = Some ls"
  shows "get_route_name cat file_name first_stop last_stop =
       Inr (py_strip ''.csv'' (basename file_name) @ '': '' @ getName fs @ '' ['' @ first_stop
              @ ''] to '' @ getName ls @ '' ['' @ last_stop @ '']'')
     \<and> (\<exists>lead trail. basename file_name = lead @ py_strip ''.csv'' (basename file_name) @ trail
           \<and> set lead \<subseteq> {CHR ''.'', CHR ''c'', CHR ''s'', CHR ''v''}
           \<and> set trail \<subseteq> {CHR ''.'', CHR ''c'', CHR ''s'', CHR ''v''})
     \<and> (py_strip ''.csv'' (basename file_name) = []
          \<or> hd (py_strip ''.csv'' (basename file_name)) \<notin> {CHR ''.'', CHR ''c'', CHR ''s'', CHR ''v''}
            \<and> last (py_strip ''.csv'' (basename file_name)) \<notin> {CHR ''.'', CHR ''c'', CHR ''s'', CHR ''v''})
     \<and> py_strip ''.csv'' (basename (csv_file_name ''services.csv'')) = ''ervice''
     \<and> csv_file_name ''services.csv'' \<noteq> csv_file_name ''ervice.csv''
     \<and> get_route_name cat (csv_file_name ''services.csv'') first_stop last_stop
         = get_route_name cat (csv_file_name ''ervice.csv'') first_stop last_stop"
proof -
  have chars: "set ''.csv'' = {CHR ''.'', CHR ''c'', CHR ''s'', CHR ''v''}"
    by simp
  have name: "get_route_name cat file_name first_stop last_stop =
       Inr (py_strip ''.csv'' (basename file_name) @ '': '' @ getName fs @ '' ['' @ first_stop
              @ ''] to '' @ getName ls @ '' ['' @ last_stop @ '']'')"
    using assms by (simp add: get_route_name_def)
  have split: "\<exists>lead trail. basename file_name = lead @ py_strip ''.csv'' (basename file_name) @ trail
           \<and> set lead \<subseteq> {CHR ''.'', CHR ''c'', CHR ''s'', CHR ''v''}
           \<and> set trail \<subseteq> {CHR ''.'', CHR ''c'', CHR ''s'', CHR ''v''}"
    using py_strip_split [of "basename file_name" "''.csv''"] unfolding chars .
  have ends: "py_strip ''.csv'' (basename file_name) = []
          \<or> hd (py_strip ''.csv'' (basename file_name)) \<notin> {CHR ''.'', CHR ''c'', CHR ''s'', CHR ''v''}
            \<and> last (py_strip ''.csv'' (basename file_name)) \<notin> {CHR ''.'', CHR ''c'', CHR ''s'', CHR ''v''}"
    using py_strip_ends [of "''.csv''" "basename file_name"] unfolding chars by blast
  have services: "basename (csv_file_name ''services.csv'') = ''services.csv''"
    by (rule basename_csv_file_name) simp_all
  have ervice: "basename (csv_file_name ''ervice.csv'') = ''ervice.csv''"
    by (rule basename_csv_file_name) simp_all
  have prefix: "py_strip ''.csv'' (basename (csv_file_name ''services.csv'')) = ''ervice''"
    by (simp only: services strip_services)
  have differ: "csv_file_name ''services.csv'' \<noteq> csv_file_name ''ervice.csv''"
    by (simp add: csv_file_name_def)
  have same: "get_route_name cat (csv_file_name ''services.csv'') first_stop last_stop
         = get_route_name cat (csv_file_name ''ervice.csv'') first_stop last_stop"
    by (simp only: get_route_name_def services ervice strip_services strip_ervice)
  show ?thesis
    using name split ends prefix differ same by blast
qed

theorem get_route_name_strips_csv_characters_witness:
  "cat_abc ''A'' = Some \<lparr>getName = ''Alpha Road'', getSection = Section 1\<rparr>
   \<and> cat_abc ''B'' = Some \<lparr>getName = ''Beta Street'', getSection = Section 2\<rparr>
   \<and> get_route_name cat_abc (csv_file_name ''services.csv'') ''A'' ''B''
       = Inr ''ervice: Alpha Road [A] to Beta Street [B]''
   \<and> get_route_name cat_abc (csv_file_name ''ervice.csv'') ''A'' ''B''
       = Inr ''ervice: Alpha Road [A] to Beta Street [B]''"
proof -
  have a: "cat_abc ''A'' = Some \<lparr>getName = ''Alpha Road'', getSection = Section 1\<rparr>"
    and b: "cat_abc ''B'' = Some \<lparr>getName = ''Beta Street'', getSection = Section 2\<rparr>"
    by (simp_all add: cat_abc_def)
  have services: "py_strip ''.csv'' (basename (csv_file_name ''services.csv'')) = ''ervice''"
    by (simp add: basename_csv_file_name strip_services)
  have named: "get_route_name cat_abc (csv_file_name ''services.csv'') ''A'' ''B''
       = Inr ''ervice: Alpha Road [A] to Beta Street [B]''"
    using get_route_name_strips_csv_characters [OF a b, of "csv_file_name ''services.csv''"]
    by (simp add: services)
  have same: "get_route_name cat_abc (csv_file_name ''services.csv'') ''A'' ''B''
       = get_route_name cat_abc (csv_file_name ''ervice.csv'') ''A'' ''B''"
    using get_route_name_strips_csv_characters [OF a b, of "csv_file_name ''services.csv''"]
    by blast
  show ?thesis
    using a b named same by simp
qed

section \<open>Properties of set_dwell_times\<close>









section \<open>Properties of output_errors\<close>

lemma write_errors_unlines: "write_errors f errors = f @ unlines errors"
  by (induction errors arbitrary: f) (simp_all add: unlines_def)

lemma unlines_Cons: "unlines (l # ls) = l @ newline @ unlines ls"
  by (simp add: unlines_def)

lemma unlines_Nil: "unlines [] = []"
  by (simp add: unlines_def)

text \<open>
  Claim C9. output_errors writes the log file exactly when it is given more than one
  message. With none or one it writes nothing and prints that no warnings were
  reported. With \<open>n\<close> messages, \<open>n\<close> at least two, the file holds the date, the
  time, an empty line, the line of \<open>n\<close> followed by the word errors, an empty line,
  and then the messages in their order, one to a line.
\<close>

theorem output_errors_writes_above_one:
  "(log_file (output_errors now errors) \<noteq> None) = (1 < length errors)
   \<and> output_errors now errors =
       (if 1 < length errors
        then \<lparr>log_file = Some (csv_file_name ''Error Log.txt'',
                 unlines ([strftime_dmY now, strftime_HM now, [],
                           string_of_nat (length errors) @ '' errors'', []] @ errors)),
               printed = ''Load Bus Timetable script complete!'' @ newline
                 @ string_of_nat (length errors) @ '' warnings output to ''
                 @ csv_file_name ''Error Log.txt'' @ ''.''\<rparr>
        else \<lparr>log_file = None,
               printed = ''Load Bus Timetable complete!'' @ newline @ ''No warnings reported.''\<rparr>)
   \<and> log_file (output_errors now []) = None
   \<and> log_file (output_errors now [e1]) = None
   \<and> log_file (output_errors now [e1, e2]) =
       Some (csv_file_name ''Error Log.txt'',
             strftime_dmY now @ newline @ strftime_HM now @ newline @ newline
               @ ''2 errors'' @ newline @ newline @ e1 @ newline @ e2 @ newline)"
  by (simp add: output_errors_def Let_def write_errors_unlines unlines_Cons unlines_Nil
        csv_file_name_def)

section \<open>Properties of get_timetable\<close>

lemma process_leg_short: "length (Stops l) < 2 \<Longrightarrow> process_leg cat file_name l st = (None, st)"
  by (simp add: process_leg_def)

lemma legs_loop_filter:
  "legs_loop cat file_name route_legs st
     = legs_loop cat file_name (filter (\<lambda>l. 2 \<le> length (Stops l)) route_legs) st"
proof (induction route_legs arbitrary: st)
  case Nil
  then show ?case by simp
next
  case (Cons l route_legs)
  show ?case
  proof (cases "length (Stops l) < 2")
    case True
    then show ?thesis
      using Cons.IH by (simp add: process_leg_short)
  next
    case False
    then show ?thesis
      using Cons.IH by (simp split: prod.splits option.splits)
  qed
qed

lemma find_route_legs_single:
  assumes "cat (fst s) \<noteq> None"
  shows "find_route_legs cat sp [s] elog = Inr ([\<lparr>Route = [], Stops = [s]\<rparr>], elog)"
  using assms by (auto simp: find_route_legs_def route_step_def)

text \<open>
  Claim C6. A leg with fewer than two stops never reaches the lookup by name, the
  creation of a line or the added departure: the loop over the legs does for a list
  of legs what it does for the legs of at least two stops among them, and a leg with
  fewer leaves the state as it is. A trip with one resolved stop gives one leg with
  that single stop, and the row leaves the state as it is.
\<close>

theorem short_legs_are_discarded:
  "legs_loop cat file_name route_legs st
     = legs_loop cat file_name (filter (\<lambda>l. 2 \<le> length (Stops l)) route_legs) st
   \<and> (length (Stops l) < 2 \<longrightarrow> process_leg cat file_name l st = (None, st))
   \<and> (cat (fst s) \<noteq> None \<longrightarrow>
        find_route_legs cat sp [s] elog = Inr ([\<lparr>Route = [], Stops = [s]\<rparr>], elog)
        \<and> legs_loop cat file_name [\<lparr>Route = [], Stops = [s]\<rparr>] st = (None, st))
   \<and> (i \<noteq> 0 \<and> parse_stops (split_on CHR '','' (py_strip whitespace row)) = Inr stops
        \<and> match_stops_in_model cat stops = [s] \<and> cat (fst s) \<noteq> None \<longrightarrow>
        rows_loop cat sp file_name ((i, row) # rows) st = rows_loop cat sp file_name rows st)"
proof -
  have single: "cat (fst s) \<noteq> None \<Longrightarrow>
        find_route_legs cat sp [s] elog = Inr ([\<lparr>Route = [], Stops = [s]\<rparr>], elog)" for elog
    by (rule find_route_legs_single)
  have dropped: "legs_loop cat file_name [\<lparr>Route = [], Stops = [s]\<rparr>] st = (None, st)" for st
    by (simp add: process_leg_short)
  have row: "i \<noteq> 0 \<and> parse_stops (split_on CHR '','' (py_strip whitespace row)) = Inr stops
        \<and> match_stops_in_model cat stops = [s] \<and> cat (fst s) \<noteq> None \<longrightarrow>
        rows_loop cat sp file_name ((i, row) # rows) st = rows_loop cat sp file_name rows st"
    using single dropped by (simp add: Let_def)
  show ?thesis
    using legs_loop_filter [of cat file_name route_legs st] process_leg_short [of l cat file_name st]
      single dropped row
    by blast
qed

lemma findByName_None: "findByName name ls = None \<longleftrightarrow> name \<notin> line_name ` set ls"
  by (induction ls) auto

lemma findByName_Some:
  "findByName name ls = Some k \<Longrightarrow> k < length ls \<and> line_name (ls ! k) = name"
  by (induction ls arbitrary: k) (auto split: if_splits)

lemma stop_on_link_known:
  "list_all (\<lambda>s. cat (fst s) \<noteq> None) stops \<Longrightarrow> \<exists>slot. stop_on_link cat link stops = Inr slot"
  by (induction stops) auto

lemma added_stops_known:
  "list_all (\<lambda>s. cat (fst s) \<noteq> None) stops \<Longrightarrow> \<exists>slots. added_stops cat links stops = Inr slots"
proof (induction links)
  case Nil
  then show ?case by simp
next
  case (Cons link links)
  obtain slot where "stop_on_link cat link stops = Inr slot"
    using stop_on_link_known [OF Cons.prems] by blast
  moreover obtain slots where "added_stops cat links stops = Inr slots"
    using Cons by blast
  ultimately show ?case by simp
qed

lemma create_pt_line_known:
  assumes "stops_known cat l"
  shows "\<exists>made. create_pt_line cat name l = (None, made) \<and> line_name made = name
     \<and> single_schedule made \<and> line_departures made = [] \<and> line_route made = Route l"
proof -
  obtain slots where "added_stops cat (Route l) (Stops l) = Inr slots"
    using added_stops_known assms unfolding stops_known_def by blast
  then show ?thesis
    by (simp add: create_pt_line_def calculate_pt_leg_def single_schedule_def
          line_departures_def new_schedule_def)
qed

lemma add_departure_single:
  assumes "single_schedule l"
  shows "\<exists>timed. add_departure l time = Inr timed \<and> line_name timed = line_name l
     \<and> single_schedule timed \<and> line_departures timed = line_departures l @ [time]"
proof -
  obtain tt where tt: "timeTables l = [tt]" and one: "length (schedules tt) = 1"
    using assms by (auto simp: single_schedule_def)
  obtain sched where sched: "schedules tt = [sched]"
    using one by (cases "schedules tt") auto
  show ?thesis
    by (simp add: add_departure_def tt sched single_schedule_def line_departures_def)
qed

lemma leg_name_known:
  assumes "stops_known cat l" and "2 \<le> length (Stops l)"
  shows "\<exists>name. leg_name cat file_name l = Inr name"
proof -
  have ne: "Stops l \<noteq> []"
    using assms(2) by auto
  have "hd (Stops l) \<in> set (Stops l)" and "last (Stops l) \<in> set (Stops l)"
    using ne by simp_all
  then have "cat (fst (hd (Stops l))) \<noteq> None" and "cat (fst (last (Stops l))) \<noteq> None"
    using assms(1) by (auto simp: stops_known_def list_all_iff)
  then show ?thesis
    by (auto simp: leg_name_def get_route_name_def)
qed

lemma departure_times_absent:
  "name \<notin> line_name ` set ls \<Longrightarrow> departure_times name ls = []"
  by (induction ls) (auto simp: departure_times_def)

lemma departure_times_Cons:
  "departure_times name (l # ls)
     = (if line_name l = name then line_departures l else []) @ departure_times name ls"
  by (simp add: departure_times_def)

lemma departure_times_snoc:
  "departure_times name (ls @ [l])
     = departure_times name ls @ (if line_name l = name then line_departures l else [])"
  by (simp add: departure_times_def)

lemma departure_times_update:
  assumes "distinct (map line_name ls)" and "k < length ls"
    and "line_name timed = line_name (ls ! k)"
    and "line_departures timed = line_departures (ls ! k) @ [time]"
  shows "departure_times name (ls[k := timed])
     = departure_times name ls @ (if line_name timed = name then [time] else [])"
  using assms
proof (induction ls arbitrary: k)
  case Nil
  then show ?case by simp
next
  case (Cons x xs)
  show ?case
  proof (cases k)
    case 0
    have "line_name x \<notin> line_name ` set xs"
      using Cons.prems(1) by auto
    then have "line_name timed = name \<Longrightarrow> departure_times name xs = []"
      using Cons.prems(3) 0 by (auto intro: departure_times_absent)
    then show ?thesis
      using Cons.prems 0 by (auto simp: departure_times_Cons)
  next
    case (Suc j)
    have j: "j < length xs"
      using Cons.prems(2) Suc by simp
    have "line_name (xs ! j) \<in> line_name ` set xs"
      using j by simp
    then have differ: "line_name x \<noteq> line_name timed"
      using Cons.prems(1,3) Suc by auto
    have "departure_times name (xs[j := timed])
        = departure_times name xs @ (if line_name timed = name then [time] else [])"
      using Cons.IH [of j] Cons.prems Suc j by simp
    then show ?thesis
      using Suc differ by (auto simp: departure_times_Cons)
  qed
qed

lemma names_update:
  "k < length ls \<Longrightarrow> line_name timed = line_name (ls ! k)
     \<Longrightarrow> map line_name (ls[k := timed]) = map line_name ls"
  by (simp add: map_update list_update_same_conv)

lemma process_leg_registers:
  assumes "tidy (lines st)" and "stops_known cat l" and "2 \<le> length (Stops l)"
  shows "\<exists>name st'. leg_name cat file_name l = Inr name
     \<and> process_leg cat file_name l st = (None, st')
     \<and> tidy (lines st')
     \<and> error_log st' = error_log st
     \<and> set (map line_name (lines st')) = insert name (set (map line_name (lines st)))
     \<and> (\<forall>m. departure_times m (lines st')
            = departure_times m (lines st) @ (if m = name then [snd (hd (Stops l))] else []))"
proof -
  obtain name where name: "leg_name cat file_name l = Inr name"
    using leg_name_known [OF assms(2,3)] by blast
  then have route_name:
    "get_route_name cat file_name (fst (hd (Stops l))) (fst (last (Stops l))) = Inr name"
    by (simp add: leg_name_def)
  have long: "\<not> length (Stops l) < 2"
    using assms(3) by simp
  show ?thesis
  proof (cases "findByName name (lines st)")
    case None
    then have fresh: "name \<notin> line_name ` set (lines st)"
      by (simp add: findByName_None)
    obtain made where made: "create_pt_line cat name l = (None, made)"
      and made_name: "line_name made = name" and made_one: "single_schedule made"
      and made_deps: "line_departures made = []"
      using create_pt_line_known [OF assms(2)] by blast
    obtain timed where timed: "add_departure made (snd (hd (Stops l))) = Inr timed"
      and timed_name: "line_name timed = name" and timed_one: "single_schedule timed"
      and timed_deps: "line_departures timed = [snd (hd (Stops l))]"
      using add_departure_single [OF made_one, of "snd (hd (Stops l))"] made_name made_deps
      by auto
    have run: "process_leg cat file_name l st = (None, st\<lparr>lines := lines st @ [timed]\<rparr>)"
      using long route_name None made timed by (simp add: process_leg_def)
    have "tidy (lines st @ [timed])"
      using assms(1) fresh timed_name timed_one by (auto simp: tidy_def)
    moreover have "\<forall>m. departure_times m (lines st @ [timed])
        = departure_times m (lines st) @ (if m = name then [snd (hd (Stops l))] else [])"
      using timed_name timed_deps by (auto simp: departure_times_snoc)
    moreover have "set (map line_name (lines st @ [timed]))
        = insert name (set (map line_name (lines st)))"
      using timed_name by auto
    ultimately show ?thesis
      using name run by simp
  next
    case (Some k)
    then have k: "k < length (lines st)" and at_k: "line_name (lines st ! k) = name"
      using findByName_Some by blast+
    have "single_schedule (lines st ! k)"
      using assms(1) k by (auto simp: tidy_def list_all_length)
    then obtain timed where timed: "add_departure (lines st ! k) (snd (hd (Stops l))) = Inr timed"
      and timed_name: "line_name timed = line_name (lines st ! k)"
      and timed_one: "single_schedule timed"
      and timed_deps: "line_departures timed
          = line_departures (lines st ! k) @ [snd (hd (Stops l))]"
      using add_departure_single by blast
    have run: "process_leg cat file_name l st = (None, st\<lparr>lines := (lines st)[k := timed]\<rparr>)"
      using long route_name Some timed by (simp add: process_leg_def)
    have names: "map line_name ((lines st)[k := timed]) = map line_name (lines st)"
      using k timed_name by (rule names_update)
    have "list_all single_schedule ((lines st)[k := timed])"
      using assms(1) timed_one
      by (auto simp: tidy_def list_all_iff dest!: set_update_subset_insert [THEN subsetD])
    then have "tidy ((lines st)[k := timed])"
      using assms(1) names by (simp add: tidy_def)
    moreover have "\<forall>m. departure_times m ((lines st)[k := timed])
        = departure_times m (lines st) @ (if m = name then [snd (hd (Stops l))] else [])"
      using departure_times_update [OF _ k timed_name timed_deps] assms(1) timed_name at_k
      by (auto simp: tidy_def)
    moreover have "set (map line_name ((lines st)[k := timed]))
        = insert name (set (map line_name (lines st)))"
      using names k at_k by (auto simp: nth_mem [THEN imageI] insert_absorb)
    ultimately show ?thesis
      using name run by simp
  qed
qed

lemma count_of_distinct_name:
  "distinct (map line_name ls)
     \<Longrightarrow> length (filter (\<lambda>l. line_name l = name) ls) = (if name \<in> line_name ` set ls then 1 else 0)"
  by (induction ls) auto

lemma legs_loop_registers:
  assumes "tidy (lines st)" and "list_all (stops_known cat) route_legs"
  shows "\<exists>st'. legs_loop cat file_name route_legs st = (None, st')
     \<and> tidy (lines st')
     \<and> error_log st' = error_log st
     \<and> (\<forall>name. departure_times name (lines st')
            = departure_times name (lines st) @ leg_times cat file_name name route_legs)
     \<and> (\<forall>name. name \<in> line_name ` set (lines st')
            \<longleftrightarrow> name \<in> line_name ` set (lines st) \<or> named_legs cat file_name name route_legs \<noteq> [])"
  using assms
proof (induction route_legs arbitrary: st)
  case Nil
  then show ?case
    by (simp add: leg_times_def named_legs_def)
next
  case (Cons l route_legs)
  have rest_known: "list_all (stops_known cat) route_legs" and known: "stops_known cat l"
    using Cons.prems(2) by simp_all
  show ?case
  proof (cases "length (Stops l) < 2")
    case True
    then have skip: "process_leg cat file_name l st = (None, st)"
      by (simp add: process_leg_def)
    have "leg_times cat file_name name (l # route_legs) = leg_times cat file_name name route_legs"
      and "named_legs cat file_name name (l # route_legs) = named_legs cat file_name name route_legs"
      for name
      using True by (simp_all add: leg_times_def named_legs_def)
    then show ?thesis
      using Cons.IH [OF Cons.prems(1) rest_known] skip by simp
  next
    case False
    then have long: "2 \<le> length (Stops l)"
      by simp
    obtain name st1 where name: "leg_name cat file_name l = Inr name"
      and run: "process_leg cat file_name l st = (None, st1)"
      and tidy1: "tidy (lines st1)"
      and log1: "error_log st1 = error_log st"
      and names1: "set (map line_name (lines st1)) = insert name (set (map line_name (lines st)))"
      and deps1: "\<And>m. departure_times m (lines st1)
            = departure_times m (lines st) @ (if m = name then [snd (hd (Stops l))] else [])"
      using process_leg_registers [OF Cons.prems(1) known long, of file_name] by blast
    obtain st' where loop: "legs_loop cat file_name route_legs st1 = (None, st')"
      and tidy': "tidy (lines st')"
      and log': "error_log st' = error_log st1"
      and deps': "\<And>m. departure_times m (lines st')
            = departure_times m (lines st1) @ leg_times cat file_name m route_legs"
      and names': "\<And>m. m \<in> line_name ` set (lines st')
            \<longleftrightarrow> m \<in> line_name ` set (lines st1) \<or> named_legs cat file_name m route_legs \<noteq> []"
      using Cons.IH [OF tidy1 rest_known] by blast
    have times: "leg_times cat file_name m (l # route_legs)
        = (if m = name then [snd (hd (Stops l))] else []) @ leg_times cat file_name m route_legs"
      for m
      using long name by (auto simp: leg_times_def named_legs_def)
    have named: "named_legs cat file_name m (l # route_legs) \<noteq> []
        \<longleftrightarrow> m = name \<or> named_legs cat file_name m route_legs \<noteq> []" for m
      using long name by (auto simp: named_legs_def)
    have "legs_loop cat file_name (l # route_legs) st = (None, st')"
      using run loop by simp
    moreover have "\<forall>m. departure_times m (lines st')
        = departure_times m (lines st) @ leg_times cat file_name m (l # route_legs)"
      using deps' deps1 times by simp
    moreover have "\<forall>m. m \<in> line_name ` set (lines st')
        \<longleftrightarrow> m \<in> line_name ` set (lines st) \<or> named_legs cat file_name m (l # route_legs) \<noteq> []"
      using names' names1 named by auto
    ultimately show ?thesis
      using tidy' log' log1 by simp
  qed
qed

text \<open>
  Claim C3. Start from a catalog in which no two lines share a name and every line
  has its single timetable and schedule, and process any legs whose stops the
  catalog finds. Then no leg raises, and afterwards the catalog is again of that
  kind: for every name there is exactly one line if the name was there before or is
  the computed name of a leg of at least two stops, and none otherwise. The
  departure times of that line are the ones it had, followed by the visit time of
  the first stop of every such leg of that name, one for each leg, in the order in
  which the legs were processed.
\<close>

theorem legs_of_one_name_share_one_line:
  assumes "tidy (lines st)" and "list_all (stops_known cat) route_legs"
  shows "\<exists>st'. legs_loop cat file_name route_legs st = (None, st')
     \<and> tidy (lines st')
     \<and> (\<forall>name. length (filter (\<lambda>l. line_name l = name) (lines st'))
            = (if name \<in> line_name ` set (lines st)
                  \<or> named_legs cat file_name name route_legs \<noteq> [] then 1 else 0))
     \<and> (\<forall>name. departure_times name (lines st')
            = departure_times name (lines st) @ leg_times cat file_name name route_legs)"
proof -
  obtain st' where loop: "legs_loop cat file_name route_legs st = (None, st')"
    and tidy': "tidy (lines st')"
    and deps': "\<forall>name. departure_times name (lines st')
            = departure_times name (lines st) @ leg_times cat file_name name route_legs"
    and names': "\<And>name. name \<in> line_name ` set (lines st')
            \<longleftrightarrow> name \<in> line_name ` set (lines st) \<or> named_legs cat file_name name route_legs \<noteq> []"
    using legs_loop_registers [OF assms, of file_name] by blast
  have "distinct (map line_name (lines st'))"
    using tidy' by (simp add: tidy_def)
  then have "\<forall>name. length (filter (\<lambda>l. line_name l = name) (lines st'))
            = (if name \<in> line_name ` set (lines st)
                  \<or> named_legs cat file_name name route_legs \<noteq> [] then 1 else 0)"
    using names' by (simp add: count_of_distinct_name)
  then show ?thesis
    using loop tidy' deps' by blast
qed

subsection \<open>The small network, run\<close>



theorem short_legs_are_discarded_witness:
  "length (Stops \<lparr>Route = [], Stops = [(''A'', ''08:00:00'')]\<rparr>) < 2
   \<and> process_leg cat_abc (csv_file_name ''route1.csv'')
        \<lparr>Route = [], Stops = [(''A'', ''08:00:00'')]\<rparr> st0 = (None, st0)
   \<and> find_route_legs cat_abc sp_abc [(''A'', ''08:00:00'')] []
       = Inr ([\<lparr>Route = [], Stops = [(''A'', ''08:00:00'')]\<rparr>], [])
   \<and> parse_stops (split_on CHR '','' (py_strip whitespace (''A(08:00:00),Z(08:05:00)'' @ newline)))
       = Inr [(''A'', ''08:00:00''), (''Z'', ''08:05:00'')]
   \<and> match_stops_in_model cat_abc [(''A'', ''08:00:00''), (''Z'', ''08:05:00'')]
       = [(''A'', ''08:00:00'')]
   \<and> rows_loop cat_abc sp_abc (csv_file_name ''route1.csv'')
        [(1, ''A(08:00:00),Z(08:05:00)'' @ newline)] st0 = (None, st0)"
proof -
  have short: "length (Stops \<lparr>Route = [], Stops = [(''A'', ''08:00:00'')]\<rparr>) < 2"
    by simp
  have known: "cat_abc (fst (''A'', ''08:00:00'')) \<noteq> None"
    by (simp add: cat_abc_def)
  have row: "parse_stops (split_on CHR '','' (py_strip whitespace (''A(08:00:00),Z(08:05:00)'' @ newline)))
       = Inr [(''A'', ''08:00:00''), (''Z'', ''08:05:00'')]"
    by (simp add: py_strip_def whitespace_def newline_def split_on_def)
  have single: "match_stops_in_model cat_abc [(''A'', ''08:00:00''), (''Z'', ''08:05:00'')]
       = [(''A'', ''08:00:00'')]"
    by (simp add: match_stops_in_model_def cat_abc_def bus_station_ids_def)
  have one: "(1::nat) \<noteq> 0"
    by simp
  show ?thesis
    using short known row single one
      short_legs_are_discarded [where l = "\<lparr>Route = [], Stops = [(''A'', ''08:00:00'')]\<rparr>"
        and cat = cat_abc and file_name = "csv_file_name ''route1.csv''" and st = st0
        and s = "(''A'', ''08:00:00'')" and sp = sp_abc and elog = "[]" and i = 1
        and row = "''A(08:00:00),Z(08:05:00)'' @ newline"
        and stops = "[(''A'', ''08:00:00''), (''Z'', ''08:05:00'')]" and rows = "[]"
        and route_legs = "[]"]
    by simp
qed

theorem legs_of_one_name_share_one_line_witness:
  "tidy (lines st0)
   \<and> list_all (stops_known cat_abc) two_legs
   \<and> fst (legs_loop cat_abc (csv_file_name ''route1.csv'') two_legs st0) = None
   \<and> length (filter (\<lambda>l. line_name l = ''route1: Alpha Road [A] to Beta Street [B]'')
        (lines (snd (legs_loop cat_abc (csv_file_name ''route1.csv'') two_legs st0)))) = 1
   \<and> departure_times ''route1: Alpha Road [A] to Beta Street [B]''
        (lines (snd (legs_loop cat_abc (csv_file_name ''route1.csv'') two_legs st0)))
       = [''08:00:00'', ''10:00:00'']"
proof -
  have clean: "tidy (lines st0)"
    by (simp add: tidy_def st0_def)
  have known: "list_all (stops_known cat_abc) two_legs"
    by (simp add: two_legs_def stops_known_def cat_abc_def)
  have named: "named_legs cat_abc (csv_file_name ''route1.csv'')
      ''route1: Alpha Road [A] to Beta Street [B]'' two_legs = two_legs"
    by (simp add: named_legs_def leg_name_def two_legs_def get_route_name_def cat_abc_def
          basename_csv_file_name py_strip_def)
  have before: "departure_times ''route1: Alpha Road [A] to Beta Street [B]'' (lines st0) = []"
    by (simp add: departure_times_def st0_def)
  obtain st' where loop: "legs_loop cat_abc (csv_file_name ''route1.csv'') two_legs st0 = (None, st')"
    and count: "length (filter (\<lambda>l. line_name l = ''route1: Alpha Road [A] to Beta Street [B]'')
        (lines st'))
      = (if ''route1: Alpha Road [A] to Beta Street [B]'' \<in> line_name ` set (lines st0)
            \<or> named_legs cat_abc (csv_file_name ''route1.csv'')
                 ''route1: Alpha Road [A] to Beta Street [B]'' two_legs \<noteq> [] then 1 else 0)"
    and deps: "departure_times ''route1: Alpha Road [A] to Beta Street [B]'' (lines st')
      = departure_times ''route1: Alpha Road [A] to Beta Street [B]'' (lines st0)
          @ leg_times cat_abc (csv_file_name ''route1.csv'')
              ''route1: Alpha Road [A] to Beta Street [B]'' two_legs"
    using legs_of_one_name_share_one_line [OF clean known, of "csv_file_name ''route1.csv''"]
    by blast
  have "length (filter (\<lambda>l. line_name l = ''route1: Alpha Road [A] to Beta Street [B]'')
        (lines st')) = 1"
    using count named by (simp add: two_legs_def)
  moreover have "departure_times ''route1: Alpha Road [A] to Beta Street [B]'' (lines st')
      = [''08:00:00'', ''10:00:00'']"
    using deps before named by (simp add: leg_times_def two_legs_def)
  ultimately show ?thesis
    using clean known loop by simp
qed


















end
